theory Spec2Isabelle
  imports Complex_Main "HOL-Library.Word"
begin

section \<open>Strings of the JavaScript runtime\<close>

text \<open>
  A JavaScript string is a sequence of UTF-16 code units; \<open>length\<close>, \<open>slice\<close>,
  \<open>indexOf\<close> and \<open>===\<close> all work on code units. The model keeps that: a string is a
  list of 16-bit words. \<open>ascii\<close> writes the ASCII part of a literal; the other
  characters of the source's literals are given by their code units.
\<close>

type_synonym jsstring = "16 word list"

definition ascii :: "string \<Rightarrow> jsstring" where
  "ascii s = map (\<lambda>c. of_char c) s"

definition js_space :: "16 word \<Rightarrow> bool" where
  \<comment> \<open>WhiteSpace and LineTerminator of ECMAScript, the characters \<open>String.prototype.trim\<close> strips.\<close>
  "js_space c \<longleftrightarrow>
     c \<in> {0x9, 0xA, 0xB, 0xC, 0xD, 0x20, 0xA0, 0x1680, 0x2028, 0x2029, 0x202F, 0x205F, 0x3000, 0xFEFF}
     \<or> (0x2000 \<le> c \<and> c \<le> 0x200A)"

definition trim :: "jsstring \<Rightarrow> jsstring" where
  "trim s = rev (dropWhile js_space (rev (dropWhile js_space s)))"

fun js_includes :: "'a list \<Rightarrow> 'a list \<Rightarrow> bool" where
  \<comment> \<open>\<open>s.includes(t)\<close>: \<open>t\<close> occurs in \<open>s\<close> as a contiguous run.\<close>
  "js_includes [] t = (t = [])"
| "js_includes (x # xs) t = (take (length t) (x # xs) = t \<or> js_includes xs t)"

fun indexOf :: "'a list \<Rightarrow> 'a \<Rightarrow> int" where
  "indexOf [] c = -1"
| "indexOf (x # xs) c = (if x = c then 0 else (let i = indexOf xs c in if i = -1 then -1 else i + 1))"

definition lastIndexOf :: "'a list \<Rightarrow> 'a \<Rightarrow> int" where
  "lastIndexOf s c = (let i = indexOf (rev s) c in if i = -1 then -1 else int (length s) - 1 - i)"

definition substring :: "'a list \<Rightarrow> int \<Rightarrow> int \<Rightarrow> 'a list" where
  \<comment> \<open>\<open>s.substring(a, b)\<close>: both ends are clamped to \<open>0 .. length\<close> and swapped when \<open>a > b\<close>.\<close>
  "substring s a b =
     (let n = int (length s);
          a' = max 0 (min a n); b' = max 0 (min b n);
          lo = min a' b'; hi = max a' b'
      in take (nat (hi - lo)) (drop (nat lo) s))"

abbreviation LBRACE :: "16 word" where "LBRACE \<equiv> 0x7B"
abbreviation RBRACE :: "16 word" where "RBRACE \<equiv> 0x7D"

section \<open>JSON values and \<open>JSON.parse\<close>\<close>

text \<open>
  The values \<open>JSON.parse\<close> produces. An object is the list of its own properties in
  the order \<open>for ... in\<close> enumerates them; a property read \<open>data.k\<close> finds the
  property named \<open>k\<close>. Numbers are carried as rationals: the code only ever tests
  them for truthiness.
\<close>

datatype json =
    JNull
  | JBool bool
  | JNumber rat
  | JString jsstring
  | JArray "json list"
  | JObject "(jsstring \<times> json) list"

fun jsize :: "json \<Rightarrow> nat" where
  "jsize JNull = 1"
| "jsize (JBool b) = 1"
| "jsize (JNumber n) = 1"
| "jsize (JString s) = Suc (length s)"
| "jsize (JArray xs) = Suc (sum_list (map jsize xs))"
| "jsize (JObject kvs) = Suc (sum_list (map jsize (map snd kvs)))"

text \<open>
  \<open>JSON.parse\<close> is a built-in of the runtime, not code of the repository. It is a
  parameter of the model: a partial function from texts to values (\<open>None\<close> where
  \<open>JSON.parse\<close> throws a \<open>SyntaxError\<close>). What the model keeps of it is that a parsed
  value is never larger than its text: every node of the value and every code unit
  of a string in it comes from at least one code unit of the text, and a string
  value also from the two quotes around it.
\<close>

typedef parser = "{p :: jsstring \<Rightarrow> json option. \<forall>t v. p t = Some v \<longrightarrow> jsize v \<le> length t}"
  by (rule exI [of _ "\<lambda>_. None"]) simp

definition JSON_parse :: "parser \<Rightarrow> jsstring \<Rightarrow> json option" where
  "JSON_parse P t = Rep_parser P t"

section \<open>The response extractor\<close>

definition get_prop :: "(jsstring \<times> json) list \<Rightarrow> string \<Rightarrow> json option" where
  \<comment> \<open>\<open>data.k\<close> on an object; \<open>None\<close> is \<open>undefined\<close>.\<close>
  "get_prop kvs k = map_of kvs (ascii k)"

definition string_field :: "(jsstring \<times> json) list \<Rightarrow> string \<Rightarrow> jsstring option" where
  \<comment> \<open>\<open>data.k && typeof data.k === 'string'\<close>: the field when it is a non-empty string.\<close>
  "string_field kvs k =
     (case get_prop kvs k of Some (JString s) \<Rightarrow> (if s \<noteq> [] then Some s else None) | _ \<Rightarrow> None)"

definition direct_field :: "(jsstring \<times> json) list \<Rightarrow> jsstring option" where
  \<comment> \<open>Step 1 of \<open>findResponseText\<close>: the five tests in the order of the source.\<close>
  "direct_field kvs =
     (case string_field kvs ''text_response'' of Some s \<Rightarrow> Some s | None \<Rightarrow>
      case string_field kvs ''output'' of Some s \<Rightarrow> Some s | None \<Rightarrow>
      case string_field kvs ''response'' of Some s \<Rightarrow> Some s | None \<Rightarrow>
      case string_field kvs ''message'' of Some s \<Rightarrow> Some s | None \<Rightarrow>
      string_field kvs ''content'')"

definition truthy :: "jsstring option \<Rightarrow> jsstring option" where
  \<comment> \<open>\<open>if (found) return found\<close>: \<open>null\<close> and the empty string fall through.\<close>
  "truthy r = (case r of Some s \<Rightarrow> (if s \<noteq> [] then Some s else None) | None \<Rightarrow> None)"

lemma length_trim_le: "length (trim s) \<le> length s"
proof -
  have "length (trim s) \<le> length (dropWhile js_space s)"
    unfolding trim_def by (simp add: length_dropWhile_le order_trans [OF length_dropWhile_le])
  also have "\<dots> \<le> length s" by (rule length_dropWhile_le)
  finally show ?thesis .
qed

lemma length_substring_le: "length (substring s a b) \<le> length s"
  unfolding substring_def Let_def by (simp add: min.coboundedI1)

lemma JSON_parse_size: "JSON_parse P t = Some v \<Longrightarrow> jsize v \<le> length t"
  using Rep_parser [of P] by (simp add: JSON_parse_def)

lemma jsize_pos: "0 < jsize v"
  by (cases v) simp_all

text \<open>
  \<open>findResponseText\<close>, with \<open>None\<close> for \<open>null\<close>. \<open>scanItems\<close> is the loop over the
  elements of an array and over the property values of an object. An array is an
  object for \<open>typeof\<close>, but an array produced by \<open>JSON.parse\<close> has none of the five
  named properties, so step 1 finds nothing there. A \<open>JSON.parse\<close> that throws is
  caught by the \<open>try\<close> around it and the code goes on.
\<close>

function findResponseText :: "parser \<Rightarrow> json \<Rightarrow> jsstring option"
  and scanItems :: "parser \<Rightarrow> json list \<Rightarrow> jsstring option" where
  "findResponseText P JNull = None"
| "findResponseText P (JBool b) = None"
| "findResponseText P (JNumber n) = None"
| "findResponseText P (JString s) =
     (if s = [] then None
      else
        (let trimmed = trim s in
         if js_includes trimmed [LBRACE] \<and> js_includes trimmed [RBRACE] then
           (case (case JSON_parse P trimmed of
                    None \<Rightarrow> None
                  | Some parsed \<Rightarrow> truthy (findResponseText P parsed)) of
              Some found \<Rightarrow> Some found
            | None \<Rightarrow>
                (let firstBrace = indexOf trimmed LBRACE;
                     lastBrace = lastIndexOf trimmed RBRACE in
                 if firstBrace \<noteq> -1 \<and> lastBrace > firstBrace then
                   (let potentialJson = substring trimmed firstBrace (lastBrace + 1) in
                    if potentialJson \<noteq> trimmed then
                      (case JSON_parse P potentialJson of
                         None \<Rightarrow> None
                       | Some parsedDeep \<Rightarrow> truthy (findResponseText P parsedDeep))
                    else None)
                 else None))
         else None))"
| "findResponseText P (JArray xs) = scanItems P xs"
| "findResponseText P (JObject kvs) =
     (case direct_field kvs of
        Some s \<Rightarrow> Some s
      | None \<Rightarrow> scanItems P (map snd kvs))"
| "scanItems P [] = None"
| "scanItems P (x # xs) =
     (case truthy (findResponseText P x) of
        Some found \<Rightarrow> Some found
      | None \<Rightarrow> scanItems P xs)"
  by pat_completeness auto

termination
proof (relation "measure (\<lambda>x. case x of
          Inl (P, d) \<Rightarrow> 2 * jsize d
        | Inr (P, xs) \<Rightarrow> 2 * sum_list (map jsize xs) + 1)", goal_cases)
  case 1
  show ?case by simp
next
  case (2 P s trimmed parsed)
  then have "jsize parsed \<le> length (trim s)" by (simp add: JSON_parse_size)
  also have "\<dots> \<le> length s" by (rule length_trim_le)
  finally show ?case by simp
next
  case (3 P s trimmed firstBrace lastBrace potentialJson parsedDeep)
  then have "jsize parsedDeep \<le> length (substring (trim s) firstBrace (lastBrace + 1))"
    by (simp add: JSON_parse_size)
  also have "\<dots> \<le> length (trim s)" by (rule length_substring_le)
  also have "\<dots> \<le> length s" by (rule length_trim_le)
  finally show ?case by simp
next
  case 4
  show ?case by simp
next
  case 5
  show ?case by simp
next
  case 6
  show ?case by simp
next
  case (7 P x xs)
  show ?case using jsize_pos [of x] by simp
qed


section \<open>The remote send operation\<close>

datatype role = User | Assistant

text \<open>
  A message's \<open>timestamp\<close> is declared a \<open>Date\<close>. At run time it is a \<open>Date\<close> object,
  given by its time value in milliseconds, in a message made in this session, and a
  string in a message read back from the storage, where \<open>JSON.stringify\<close> has written
  the date as text.
\<close>

datatype stamp = DateObject int | DateText jsstring

record message =
  mid :: jsstring
  role :: role
  content :: jsstring
  timestamp :: stamp
  isLiked :: "bool option"
  isDisliked :: "bool option"

definition START_MARKER :: jsstring where
  "START_MARKER = [0x5F53, 0x524D, 0x662F, 0x5BF9, 0x8BDD, 0x7684, 0x5F00, 0x59CB, 0x3002]"

definition INTENT_AUTO :: jsstring where
  "INTENT_AUTO = [0x81EA, 0x52A8]"

definition MSG_404 :: jsstring where
  "MSG_404 = [0x8FDE, 0x63A5, 0x5730, 0x5740, 0x9519, 0x8BEF] @ ascii '' (404)''
     @ [0x3002, 0x5982, 0x679C, 0x60A8, 0x4F7F, 0x7528, 0x7684, 0x662F, 0x6D4B, 0x8BD5] @ ascii '' URL''
     @ [0xFF0C, 0x8BF7, 0x786E, 0x4FDD] @ ascii '' N8N '' @ [0x4E2D, 0x5DF2, 0x70B9, 0x51FB, 0x0027]
     @ ascii ''Execute'' @ [0x0027, 0xFF0C, 0x6216, 0x5207, 0x6362, 0x5230, 0x751F, 0x4EA7]
     @ ascii '' URL'' @ [0x3002]"

definition UNSTABLE_PREFIX :: jsstring where
  "UNSTABLE_PREFIX = [0x8FDE, 0x63A5, 0x4E0D, 0x7A33, 0x5B9A] @ ascii '' (''"

definition MSG_UNDECODABLE :: jsstring where
  "MSG_UNDECODABLE = ascii ''Orion ''
     @ [0x6536, 0x5230, 0x4FE1, 0x53F7, 0xFF0C, 0x4F46, 0x65E0, 0x6CD5, 0x89E3, 0x7801, 0x5185, 0x5BB9]
     @ ascii '' ('' @ [0x683C, 0x5F0F, 0x89E3, 0x6790, 0x9519, 0x8BEF] @ ascii '')'' @ [0x3002]"

definition MSG_TIMEOUT :: jsstring where
  "MSG_TIMEOUT = ascii ''Orion '' @ [0x601D, 0x8003, 0x8D85, 0x65F6, 0x4E86] @ ascii '' (''
     @ [0x8BF7, 0x68C0, 0x67E5] @ ascii '' N8N '' @ [0x662F, 0x5426, 0x5361, 0x4F4F] @ ascii '')'' @ [0x3002]"

definition MSG_NETWORK :: jsstring where
  "MSG_NETWORK = [0x7F51, 0x7EDC, 0x8FDE, 0x63A5, 0x4F3C, 0x4E4E, 0x65AD, 0x5F00, 0x4E86, 0x3002]"

definition API_KEY :: jsstring where
  "API_KEY = ascii ''164182930qwas''"

subsection \<open>The context summary\<close>

fun join :: "'a list \<Rightarrow> 'a list list \<Rightarrow> 'a list" where
  \<comment> \<open>\<open>Array.prototype.join\<close> on an array of strings.\<close>
  "join sep [] = []"
| "join sep [x] = x"
| "join sep (x # y # ys) = x @ sep @ join sep (y # ys)"

definition slice_last :: "nat \<Rightarrow> 'a list \<Rightarrow> 'a list" where
  \<comment> \<open>\<open>xs.slice(-n)\<close>: the last \<open>n\<close> elements, all of them when there are fewer.\<close>
  "slice_last n xs = drop (length xs - n) xs"

definition context_line :: "message \<Rightarrow> jsstring" where
  "context_line m = (if role m = User then ascii ''User'' else ascii ''Orion'') @ ascii '': '' @ content m"

definition memoryContext :: "jsstring \<Rightarrow> message list \<Rightarrow> jsstring" where
  "memoryContext text history =
     (let previousMessages = filter (\<lambda>m. content m \<noteq> text) history in
      if length previousMessages > 0 then
        join [0xA]
          (map context_line
            (slice_last 10
              (filter (\<lambda>m. trim (content m) \<noteq> []) previousMessages)))
      else START_MARKER)"

subsection \<open>The request and the network\<close>

record payload =
  free_text :: jsstring
  intent_selection :: jsstring
  memory_context :: jsstring
  api_key :: "jsstring option"
  x_api_key :: "jsstring option"

record request =
  header_x_api_key :: "jsstring option"
  body :: payload

record js_error =
  err_name :: jsstring
  err_message :: jsstring

text \<open>
  What \<open>fetch\<close> does with a request is the environment's choice: it resolves with a
  response, of which the code reads the status and the body text (what
  \<open>response.text()\<close> resolves with), or it throws. An abort by the 90 second timer is
  a throw of an error named \<open>AbortError\<close>.
\<close>

datatype fetch_result = Responded nat jsstring | Threw js_error

datatype outcome = Resolved jsstring | Rejected js_error

definition basePayload :: "jsstring \<Rightarrow> message list \<Rightarrow> payload" where
  "basePayload text history =
     \<lparr>free_text = trim text, intent_selection = INTENT_AUTO,
      memory_context = memoryContext text history, api_key = None, x_api_key = None\<rparr>"

definition fetchWithFallback :: "(request \<Rightarrow> fetch_result) \<Rightarrow> payload \<Rightarrow> fetch_result" where
  "fetchWithFallback net base =
     (case net \<lparr>header_x_api_key = Some API_KEY, body = base\<rparr> of
        Responded status txt \<Rightarrow> Responded status txt
      | Threw err \<Rightarrow>
          if err_name err = ascii ''TypeError'' \<and> err_message err = ascii ''Failed to fetch'' then
            (case net \<lparr>header_x_api_key = None,
                       body = base\<lparr>api_key := Some API_KEY, x_api_key := Some API_KEY\<rparr>\<rparr> of
               Responded status txt \<Rightarrow> Responded status txt
             | Threw fallbackErr \<Rightarrow> Threw err)
          else Threw err)"

subsection \<open>Decoding the response\<close>

fun json_truthy :: "json \<Rightarrow> bool" where
  "json_truthy JNull = False"
| "json_truthy (JBool b) = b"
| "json_truthy (JNumber n) = (n \<noteq> 0)"
| "json_truthy (JString s) = (s \<noteq> [])"
| "json_truthy (JArray xs) = True"
| "json_truthy (JObject kvs) = True"

fun digits :: "nat \<Rightarrow> jsstring" where
  \<comment> \<open>The decimal text of a non-negative integer, as \<open>toString\<close> and template literals give it.\<close>
  "digits n = (if n < 10 then [0x30 + of_nat n] else digits (n div 10) @ [0x30 + of_nat (n mod 10)])"

declare digits.simps [simp del]

definition error_text :: "(json \<Rightarrow> jsstring) \<Rightarrow> json \<Rightarrow> nat \<Rightarrow> jsstring" where
  \<comment> \<open>\<open>jsonResult?.message || `... (${response.status})`\<close>, converted to a string by
     \<open>new Error\<close>; \<open>to_text\<close> is the runtime's conversion of a value that is not a string.\<close>
  "error_text to_text jsonResult status =
     (case (case jsonResult of JObject kvs \<Rightarrow> get_prop kvs ''message'' | _ \<Rightarrow> None) of
        Some v \<Rightarrow>
          if json_truthy v then (case v of JString s \<Rightarrow> s | _ \<Rightarrow> to_text v)
          else UNSTABLE_PREFIX @ digits status @ ascii '')''
      | None \<Rightarrow> UNSTABLE_PREFIX @ digits status @ ascii '')'')"

definition handleResponse :: "parser \<Rightarrow> (json \<Rightarrow> jsstring) \<Rightarrow> nat \<Rightarrow> jsstring \<Rightarrow> js_error + jsstring" where
  \<comment> \<open>The body of the \<open>try\<close> from \<open>response.text()\<close> on: \<open>Inl\<close> is a \<open>throw\<close>, \<open>Inr\<close> a \<open>return\<close>.\<close>
  "handleResponse P to_text status textResult =
     (let jsonResult = (case JSON_parse P textResult of Some v \<Rightarrow> v | None \<Rightarrow> JNull) in
      if \<not> (200 \<le> status \<and> status \<le> 299) then
        (if status = 404 then Inl \<lparr>err_name = ascii ''Error'', err_message = MSG_404\<rparr>
         else Inl \<lparr>err_name = ascii ''Error'', err_message = error_text to_text jsonResult status\<rparr>)
      else
        (case (if json_truthy jsonResult then truthy (findResponseText P jsonResult) else None) of
           Some foundText \<Rightarrow> Inr foundText
         | None \<Rightarrow>
             if textResult \<noteq> [] \<and> length (trim textResult) > 0 \<and> \<not> json_truthy jsonResult
             then Inr textResult
             else Inr MSG_UNDECODABLE))"

definition sendMessageToOrion ::
  "parser \<Rightarrow> (json \<Rightarrow> jsstring) \<Rightarrow> (request \<Rightarrow> fetch_result) \<Rightarrow> jsstring \<Rightarrow> message list \<Rightarrow> outcome" where
  "sendMessageToOrion P to_text net text history =
     (case (case fetchWithFallback net (basePayload text history) of
              Threw err \<Rightarrow> Inl err
            | Responded status textResult \<Rightarrow> handleResponse P to_text status textResult) of
        Inr reply \<Rightarrow> Resolved reply
      | Inl error \<Rightarrow>
          if err_name error = ascii ''AbortError'' then Resolved MSG_TIMEOUT
          else if err_name error = ascii ''TypeError'' then Resolved MSG_NETWORK
          else if js_includes (err_message error) (ascii ''404'') then Resolved (err_message error)
          else Rejected error)"

section \<open>The session store\<close>

datatype language = ZH | EN

record chat_session =
  sid :: jsstring
  title :: jsstring
  messages :: "message list"
  updatedAt :: int

text \<open>
  The React state of \<open>App\<close> that the session handlers read and write. A handler
  reads \<open>sessions\<close>, \<open>currentSessionId\<close> and \<open>language\<close> from the render it was created
  in and queues updates; the queued updates are applied in the order of the calls,
  a function update (\<open>setSessions(prev => ...)\<close>) to the result of the updates before
  it. Each handler below returns the state after its queue has been applied.
\<close>

record app_state =
  sessions :: "chat_session list"
  currentSessionId :: "jsstring option"
  language :: language
  isInitialized :: bool
  bgImage :: "jsstring option"

definition TITLE_ZH :: jsstring where
  "TITLE_ZH = [0x2728] @ ascii '' '' @ [0x65B0, 0x5BF9, 0x8BDD]"

definition TITLE_EN :: jsstring where
  "TITLE_EN = [0x2728] @ ascii '' New Chat''"

definition createSessionObject :: "language \<Rightarrow> nat \<Rightarrow> nat \<Rightarrow> chat_session" where
  \<comment> \<open>\<open>now_id\<close> and \<open>now_upd\<close> are the two readings of \<open>Date.now()\<close>.\<close>
  "createSessionObject lang now_id now_upd =
     \<lparr>sid = digits now_id,
      title = (if lang = ZH then TITLE_ZH else TITLE_EN),
      messages = [],
      updatedAt = int now_upd\<rparr>"

definition setSessions :: "(chat_session list \<Rightarrow> chat_session list) \<Rightarrow> app_state \<Rightarrow> app_state" where
  "setSessions f st = st\<lparr>sessions := f (sessions st)\<rparr>"

definition setCurrentSessionId :: "jsstring option \<Rightarrow> app_state \<Rightarrow> app_state" where
  "setCurrentSessionId c st = st\<lparr>currentSessionId := c\<rparr>"

definition createNewSession :: "nat \<Rightarrow> nat \<Rightarrow> app_state \<Rightarrow> app_state" where
  "createNewSession now_id now_upd st =
     (let newSession = createSessionObject (language st) now_id now_upd in
      setCurrentSessionId (Some (sid newSession))
        (setSessions (\<lambda>prev. newSession # prev) st))"

definition derive_title :: "jsstring \<Rightarrow> jsstring" where
  \<comment> \<open>\<open>firstMsg.slice(0, 20) + (firstMsg.length > 20 ? '...' : '')\<close>\<close>
  "derive_title firstMsg = take 20 firstMsg @ (if length firstMsg > 20 then ascii ''...'' else [])"

definition updateSession :: "nat \<Rightarrow> message list \<Rightarrow> chat_session \<Rightarrow> chat_session" where
  \<comment> \<open>What the \<open>map\<close> of \<open>updateCurrentMessages\<close> returns for the session of the current id.\<close>
  "updateSession now newMessages session =
     (let isDefaultTitle =
            (title session = TITLE_ZH \<or> title session = TITLE_EN \<or> length (messages session) = 0);
          newTitle =
            (case newMessages of
               firstMessage # _ \<Rightarrow>
                 if isDefaultTitle then derive_title (content firstMessage) else title session
             | [] \<Rightarrow> title session)
      in session\<lparr>messages := newMessages, title := newTitle, updatedAt := int now\<rparr>)"

fun updateSessions ::
  "(nat \<Rightarrow> nat) \<Rightarrow> nat \<Rightarrow> jsstring \<Rightarrow> message list \<Rightarrow> chat_session list \<Rightarrow> chat_session list" where
  \<comment> \<open>The \<open>map\<close> of \<open>updateCurrentMessages\<close>. It reads \<open>Date.now()\<close> once for every session of
     the current id; \<open>clock k\<close> is the reading number \<open>k\<close>, counted from the one for the
     first such session.\<close>
  "updateSessions clock k cur newMessages [] = []"
| "updateSessions clock k cur newMessages (session # rest) =
     (if sid session = cur
      then updateSession (clock k) newMessages session
             # updateSessions clock (Suc k) cur newMessages rest
      else session # updateSessions clock k cur newMessages rest)"

definition updateCurrentMessages :: "(nat \<Rightarrow> nat) \<Rightarrow> message list \<Rightarrow> app_state \<Rightarrow> app_state" where
  "updateCurrentMessages clock newMessages st =
     (case currentSessionId st of
        None \<Rightarrow> st
      | Some cur \<Rightarrow>
          if cur = [] then st
          else setSessions (updateSessions clock 0 cur newMessages) st)"

definition deleteSession :: "nat \<Rightarrow> nat \<Rightarrow> jsstring \<Rightarrow> app_state \<Rightarrow> app_state" where
  "deleteSession now_id now_upd ident st =
     (let newSessions = filter (\<lambda>s. sid s \<noteq> ident) (sessions st);
          st1 = setSessions (\<lambda>_. newSessions) st
      in case newSessions of
           [] \<Rightarrow> createNewSession now_id now_upd st1
         | first # _ \<Rightarrow>
             if currentSessionId st = Some ident then setCurrentSessionId (Some (sid first)) st1
             else st1)"

subsection \<open>Persistence\<close>

text \<open>
  The three entries of \<open>localStorage\<close> the application uses. The two effects that
  save and the effect that loads take \<open>JSON.stringify\<close> and \<open>JSON.parse\<close> at the type
  of the session collection as arguments: \<open>stringify\<close> gives the stored text, and
  \<open>parse\<close> gives what the initialization sees of a stored text: a \<open>SyntaxError\<close>, a
  value that is not an array, or an array, which the code takes as a session collection
  without looking at its elements. The two functions themselves are
  \<open>JSON_stringify_sessions\<close> and \<open>JSON_parse_sessions\<close> below. \<open>fits\<close> says whether
  \<open>setItem\<close> accepts a value or throws for lack of space.
\<close>

record storage =
  orion_sessions :: "jsstring option"
  orion_current_session_id :: "jsstring option"
  orion_bg_image :: "jsstring option"

datatype stored = Unparseable | NotArray | SessionArray "chat_session list"




definition initialize :: "(jsstring \<Rightarrow> stored) \<Rightarrow> nat \<Rightarrow> nat \<Rightarrow> storage \<Rightarrow> app_state \<Rightarrow> app_state" where
  \<comment> \<open>The effect that runs once on mount.\<close>
  "initialize parse now_id now_upd store st =
     (let savedSessions = orion_sessions store;
          savedSessionId = orion_current_session_id store;
          savedBg = orion_bg_image store;
          st1 = (case savedBg of
                   Some bg \<Rightarrow> if bg \<noteq> [] then st\<lparr>bgImage := Some bg\<rparr> else st
                 | None \<Rightarrow> st);
          loadedSessions =
            (case savedSessions of
               Some txt \<Rightarrow>
                 if txt \<noteq> [] then
                   (case parse txt of SessionArray parsed \<Rightarrow> parsed | NotArray \<Rightarrow> [] | Unparseable \<Rightarrow> [])
                 else []
             | None \<Rightarrow> []);
          st2 =
            (case loadedSessions of
               first # _ \<Rightarrow>
                 setCurrentSessionId
                   (case savedSessionId of
                      Some saved \<Rightarrow>
                        if saved \<noteq> [] \<and> list_ex (\<lambda>s. sid s = saved) loadedSessions
                        then Some saved else Some (sid first)
                    | None \<Rightarrow> Some (sid first))
                   (setSessions (\<lambda>_. loadedSessions) st1)
             | [] \<Rightarrow>
                 (let newSession = createSessionObject ZH now_id now_upd in
                  setCurrentSessionId (Some (sid newSession))
                    (setSessions (\<lambda>_. [newSession]) st1)))
      in st2\<lparr>isInitialized := True\<rparr>)"

definition initial_state :: app_state where
  \<comment> \<open>The \<open>useState\<close> defaults.\<close>
  "initial_state =
     \<lparr>sessions = [], currentSessionId = None, language = ZH, isInitialized = False, bgImage = None\<rparr>"

text \<open>
  The states the store can be in once initialized: the initialization from any stored
  content, followed by any sequence of the handlers that \<open>App\<close> passes to its
  children (new chat, select, delete, update of the current messages), of the
  language toggle and of the background upload.
\<close>

inductive reachable :: "app_state \<Rightarrow> bool" where
  init: "reachable (initialize parse now_id now_upd store initial_state)"
| new_chat: "reachable st \<Longrightarrow> reachable (createNewSession now_id now_upd st)"
| select: "reachable st \<Longrightarrow> reachable (setCurrentSessionId (Some ident) st)"
| delete: "reachable st \<Longrightarrow> reachable (deleteSession now_id now_upd ident st)"
| update: "reachable st \<Longrightarrow> reachable (updateCurrentMessages clock newMessages st)"
| toggle: "reachable st \<Longrightarrow> reachable (st\<lparr>language := (if language st = ZH then EN else ZH)\<rparr>)"
| background: "reachable st \<Longrightarrow> reachable (st\<lparr>bgImage := Some img\<rparr>)"

subsection \<open>Reading JSON text\<close>

text \<open>
  \<open>JSON.parse\<close> without a reviver, as the language standard defines it: the grammar of
  JSON texts (white space, objects, arrays, strings with their escapes, numbers, the
  three literals), read by recursive descent. A number is kept as the rational it
  denotes. In an object a repeated key keeps the place of its first occurrence and
  the value of its last, and the keys that are array indices come first, in ascending
  order, as the enumeration of an object's own properties has them. The descent is
  bounded by a count that starts at twice the length of the text plus one; lemma
  \<open>parse_value_fuel\<close> shows that every larger count gives the same result, so no
  text is refused for lack of it.
\<close>

definition json_ws :: "16 word \<Rightarrow> bool" where
  "json_ws c \<longleftrightarrow> c = 0x20 \<or> c = 0x09 \<or> c = 0x0A \<or> c = 0x0D"

definition skip_ws :: "jsstring \<Rightarrow> jsstring" where
  "skip_ws ts = dropWhile json_ws ts"

definition hex_value :: "16 word \<Rightarrow> nat option" where
  "hex_value c =
     (if 0x30 \<le> c \<and> c \<le> 0x39 then Some (unat c - 0x30)
      else if 0x61 \<le> c \<and> c \<le> 0x66 then Some (unat c - 0x57)
      else if 0x41 \<le> c \<and> c \<le> 0x46 then Some (unat c - 0x37)
      else None)"

definition hex4 :: "16 word \<Rightarrow> 16 word \<Rightarrow> 16 word \<Rightarrow> 16 word \<Rightarrow> 16 word option" where
  "hex4 a b c d =
     (case (hex_value a, hex_value b, hex_value c, hex_value d) of
        (Some x, Some y, Some z, Some w) \<Rightarrow> Some (of_nat (4096 * x + 256 * y + 16 * z + w))
      | _ \<Rightarrow> None)"

definition simple_escape :: "16 word \<Rightarrow> 16 word option" where
  "simple_escape e =
     (if e = 0x22 then Some 0x22
      else if e = 0x5C then Some 0x5C
      else if e = 0x2F then Some 0x2F
      else if e = 0x62 then Some 0x08
      else if e = 0x66 then Some 0x0C
      else if e = 0x6E then Some 0x0A
      else if e = 0x72 then Some 0x0D
      else if e = 0x74 then Some 0x09
      else None)"

fun parse_chars :: "jsstring \<Rightarrow> (jsstring \<times> jsstring) option" where
  "parse_chars [] = None"
| "parse_chars (c # cs) =
     (if c = 0x22 then Some ([], cs)
      else if c = 0x5C then
        (case cs of
           [] \<Rightarrow> None
         | e # es \<Rightarrow>
             if e = 0x75 then
               (case es of
                  h1 # h2 # h3 # h4 # rest \<Rightarrow>
                    (case hex4 h1 h2 h3 h4 of
                       None \<Rightarrow> None
                     | Some u \<Rightarrow>
                         (case parse_chars rest of
                            None \<Rightarrow> None
                          | Some (s, after) \<Rightarrow> Some (u # s, after)))
                | _ \<Rightarrow> None)
             else
               (case simple_escape e of
                  None \<Rightarrow> None
                | Some u \<Rightarrow>
                    (case parse_chars es of
                       None \<Rightarrow> None
                     | Some (s, after) \<Rightarrow> Some (u # s, after))))
      else if c < 0x20 then None
      else
        (case parse_chars cs of
           None \<Rightarrow> None
         | Some (s, after) \<Rightarrow> Some (c # s, after)))"

definition is_digit :: "16 word \<Rightarrow> bool" where
  "is_digit c \<longleftrightarrow> 0x30 \<le> c \<and> c \<le> 0x39"

definition digits_value :: "jsstring \<Rightarrow> nat" where
  "digits_value ds = foldl (\<lambda>a c. 10 * a + (unat c - 0x30)) 0 ds"

definition parse_fraction :: "jsstring \<Rightarrow> (jsstring \<times> jsstring) option" where
  "parse_fraction ts =
     (case ts of
        c # r \<Rightarrow>
          if c = 0x2E then
            (if takeWhile is_digit r = [] then None
             else Some (takeWhile is_digit r, dropWhile is_digit r))
          else Some ([], ts)
      | [] \<Rightarrow> Some ([], ts))"

definition parse_exponent :: "jsstring \<Rightarrow> (int \<times> jsstring) option" where
  "parse_exponent ts =
     (case ts of
        c # r \<Rightarrow>
          if c = 0x65 \<or> c = 0x45 then
            (let signed = (r \<noteq> [] \<and> (hd r = 0x2B \<or> hd r = 0x2D));
                 r1 = (if signed then tl r else r);
                 magnitude = int (digits_value (takeWhile is_digit r1))
             in if takeWhile is_digit r1 = [] then None
                else Some (if signed \<and> hd r = 0x2D then - magnitude else magnitude,
                           dropWhile is_digit r1))
          else Some (0, ts)
      | [] \<Rightarrow> Some (0, ts))"

definition parse_number :: "jsstring \<Rightarrow> (rat \<times> jsstring) option" where
  "parse_number ts =
     (let negative = (ts \<noteq> [] \<and> hd ts = 0x2D);
          t1 = (if negative then tl ts else ts);
          ip = takeWhile is_digit t1
      in if ip = [] \<or> (hd ip = 0x30 \<and> length ip > 1) then None
         else
           (case parse_fraction (dropWhile is_digit t1) of
              None \<Rightarrow> None
            | Some (fp, t3) \<Rightarrow>
                (case parse_exponent t3 of
                   None \<Rightarrow> None
                 | Some (e, t4) \<Rightarrow>
                     (let mantissa = of_nat (digits_value ip)
                                       + of_nat (digits_value fp) / 10 ^ length fp;
                          scaled = (if 0 \<le> e then mantissa * 10 ^ nat e
                                    else mantissa / 10 ^ nat (- e))
                      in Some (if negative then - scaled else scaled, t4)))))"

definition is_array_index :: "jsstring \<Rightarrow> bool" where
  "is_array_index k \<longleftrightarrow>
     k \<noteq> [] \<and> list_all is_digit k \<and> (k = [0x30] \<or> hd k \<noteq> 0x30) \<and> digits_value k < 4294967295"

definition put_property :: "(jsstring \<times> json) list \<Rightarrow> jsstring \<Rightarrow> json \<Rightarrow> (jsstring \<times> json) list" where
  "put_property kvs k v =
     (if k \<in> fst ` set kvs then map (\<lambda>(k', v'). if k' = k then (k', v) else (k', v')) kvs
      else kvs @ [(k, v)])"

definition enumeration :: "(jsstring \<times> json) list \<Rightarrow> (jsstring \<times> json) list" where
  "enumeration kvs =
     sort_key (\<lambda>(k, v). digits_value k) (filter (\<lambda>(k, v). is_array_index k) kvs)
       @ filter (\<lambda>(k, v). \<not> is_array_index k) kvs"

fun parse_value :: "nat \<Rightarrow> jsstring \<Rightarrow> (json \<times> jsstring) option"
  and parse_elements :: "nat \<Rightarrow> jsstring \<Rightarrow> json list \<Rightarrow> (json \<times> jsstring) option"
  and parse_members :: "nat \<Rightarrow> jsstring \<Rightarrow> (jsstring \<times> json) list \<Rightarrow> (json \<times> jsstring) option" where
  "parse_value 0 ts = None"
| "parse_value (Suc n) ts =
     (case skip_ws ts of
        [] \<Rightarrow> None
      | c # cs \<Rightarrow>
          if c = 0x7B then
            (case skip_ws cs of
               [] \<Rightarrow> None
             | d # ds \<Rightarrow> if d = 0x7D then Some (JObject [], ds) else parse_members n (d # ds) [])
          else if c = 0x5B then
            (case skip_ws cs of
               [] \<Rightarrow> None
             | d # ds \<Rightarrow> if d = 0x5D then Some (JArray [], ds) else parse_elements n (d # ds) [])
          else if c = 0x22 then
            (case parse_chars cs of
               None \<Rightarrow> None
             | Some (s, rest) \<Rightarrow> Some (JString s, rest))
          else if take 4 (c # cs) = ascii ''true'' then Some (JBool True, drop 4 (c # cs))
          else if take 5 (c # cs) = ascii ''false'' then Some (JBool False, drop 5 (c # cs))
          else if take 4 (c # cs) = ascii ''null'' then Some (JNull, drop 4 (c # cs))
          else
            (case parse_number (c # cs) of
               None \<Rightarrow> None
             | Some (q, rest) \<Rightarrow> Some (JNumber q, rest)))"
| "parse_elements 0 ts acc = None"
| "parse_elements (Suc n) ts acc =
     (case parse_value n ts of
        None \<Rightarrow> None
      | Some (v, rest) \<Rightarrow>
          (case skip_ws rest of
             [] \<Rightarrow> None
           | d # ds \<Rightarrow>
               if d = 0x2C then parse_elements n ds (acc @ [v])
               else if d = 0x5D then Some (JArray (acc @ [v]), ds)
               else None))"
| "parse_members 0 ts acc = None"
| "parse_members (Suc n) ts acc =
     (case skip_ws ts of
        [] \<Rightarrow> None
      | q # cs \<Rightarrow>
          if q = 0x22 then
            (case parse_chars cs of
               None \<Rightarrow> None
             | Some (k, rest) \<Rightarrow>
                 (case skip_ws rest of
                    [] \<Rightarrow> None
                  | c # r \<Rightarrow>
                      if c = 0x3A then
                        (case parse_value n r of
                           None \<Rightarrow> None
                         | Some (v, rest2) \<Rightarrow>
                             (case skip_ws rest2 of
                                [] \<Rightarrow> None
                              | d # ds \<Rightarrow>
                                  if d = 0x2C then parse_members n ds (put_property acc k v)
                                  else if d = 0x7D
                                  then Some (JObject (enumeration (put_property acc k v)), ds)
                                  else None))
                      else None))
          else None)"

definition json_of_text :: "jsstring \<Rightarrow> json option" where
  "json_of_text t =
     (case parse_value (Suc (2 * length t)) t of
        None \<Rightarrow> None
      | Some (v, rest) \<Rightarrow> if skip_ws rest = [] then Some v else None)"

subsection \<open>Writing JSON text\<close>

















subsection \<open>The stored collection as the initialization sees it\<close>












section \<open>Notions of the specification\<close>

text \<open>
  The recognized reply fields in the priority order the specification lists them.
\<close>

definition reply_fields :: "string list" where
  "reply_fields = [''text_response'', ''output'', ''response'', ''message'', ''content'']"

text \<open>
  A recognized field holding a non-empty string occurs somewhere in a value: in the
  value itself, in an element or a property value of it, or in the JSON that a string
  of it carries, either as the whole trimmed string or between its first \<open>{\<close> and its
  last \<open>}\<close>, which are the two places where the specification's step 2 looks.
\<close>

definition between_braces :: "jsstring \<Rightarrow> jsstring" where
  "between_braces t = substring t (indexOf t LBRACE) (lastIndexOf t RBRACE + 1)"

inductive reply_occurs :: "parser \<Rightarrow> json \<Rightarrow> bool" for P where
  in_field: "k \<in> set reply_fields \<Longrightarrow> get_prop kvs k = Some (JString s) \<Longrightarrow> s \<noteq> []
            \<Longrightarrow> reply_occurs P (JObject kvs)"
| in_element: "x \<in> set xs \<Longrightarrow> reply_occurs P x \<Longrightarrow> reply_occurs P (JArray xs)"
| in_member: "(k, v) \<in> set kvs \<Longrightarrow> reply_occurs P v \<Longrightarrow> reply_occurs P (JObject kvs)"
| in_text: "JSON_parse P (trim s) = Some v \<Longrightarrow> reply_occurs P v \<Longrightarrow> reply_occurs P (JString s)"
| in_braces: "JSON_parse P (between_braces (trim s)) = Some v \<Longrightarrow> reply_occurs P v
            \<Longrightarrow> reply_occurs P (JString s)"

inductive_simps reply_occurs_JNull: "reply_occurs P JNull"
inductive_simps reply_occurs_JBool: "reply_occurs P (JBool b)"
inductive_simps reply_occurs_JNumber: "reply_occurs P (JNumber n)"
inductive_simps reply_occurs_JString: "reply_occurs P (JString s)"
inductive_simps reply_occurs_JArray: "reply_occurs P (JArray xs)"
inductive_simps reply_occurs_JObject: "reply_occurs P (JObject kvs)"

text \<open>
  The bounded set of the specification's context summary: the history messages whose
  content differs from the input text and is not blank, restricted to the last ten.
\<close>

definition bounded_context :: "jsstring \<Rightarrow> message list \<Rightarrow> message list" where
  "bounded_context text history =
     slice_last 10 (filter (\<lambda>m. content m \<noteq> text \<and> trim (content m) \<noteq> []) history)"

text \<open>
  The reply to a successful response. \<open>reply_as_claimed\<close> follows the specification's
  step 6 word for word: the extractor's result when the body parsed and the extractor
  found something, else the raw text when it is non-empty and the body did not parse,
  else the placeholder. \<open>reply_of_body\<close> differs in the second case: the raw text is
  returned when it is not blank and the body did not parse or parsed to a falsy value
  (\<open>null\<close>, \<open>false\<close>, \<open>0\<close>, the empty string).
\<close>

definition reply_as_claimed :: "parser \<Rightarrow> jsstring \<Rightarrow> jsstring" where
  "reply_as_claimed P textResult =
     (case JSON_parse P textResult of
        Some jsonResult \<Rightarrow>
          (case findResponseText P jsonResult of
             Some found \<Rightarrow> found
           | None \<Rightarrow> MSG_UNDECODABLE)
      | None \<Rightarrow> if textResult \<noteq> [] then textResult else MSG_UNDECODABLE)"

definition reply_of_body :: "parser \<Rightarrow> jsstring \<Rightarrow> jsstring" where
  "reply_of_body P textResult =
     (case JSON_parse P textResult of
        Some jsonResult \<Rightarrow>
          (case findResponseText P jsonResult of
             Some found \<Rightarrow> found
           | None \<Rightarrow>
               if trim textResult \<noteq> [] \<and> \<not> json_truthy jsonResult then textResult
               else MSG_UNDECODABLE)
      | None \<Rightarrow> if trim textResult \<noteq> [] then textResult else MSG_UNDECODABLE)"

text \<open>
  The placeholder titles: the two titles a new session is created with.
\<close>

definition is_placeholder :: "jsstring \<Rightarrow> bool" where
  "is_placeholder t \<longleftrightarrow> t = TITLE_ZH \<or> t = TITLE_EN"

section \<open>Sample data\<close>

text \<open>
  A parser for evaluating the model on concrete inputs. It gives what \<open>JSON.parse\<close>
  gives on three texts, \<open>0\<close>, \<open>{"output":"hi"}\<close> and \<open>{"a":1}\<close>, and refuses every
  other text; the evaluations below only hand it these three texts or texts that
  \<open>JSON.parse\<close> refuses as well.
\<close>

definition quoted :: "jsstring \<Rightarrow> jsstring" where
  "quoted s = [0x22] @ s @ [0x22]"

definition TEXT_ZERO :: jsstring where
  "TEXT_ZERO = ascii ''0''"

definition TEXT_REPLY_HI :: jsstring where
  "TEXT_REPLY_HI = ascii ''{'' @ quoted (ascii ''output'') @ ascii '':'' @ quoted (ascii ''hi'') @ ascii ''}''"

definition TEXT_A1 :: jsstring where
  "TEXT_A1 = ascii ''{'' @ quoted (ascii ''a'') @ ascii '':1}''"

definition sample_table :: "jsstring \<Rightarrow> json option" where
  "sample_table t =
     (if t = TEXT_ZERO then Some (JNumber 0)
      else if t = TEXT_REPLY_HI then Some (JObject [(ascii ''output'', JString (ascii ''hi''))])
      else if t = TEXT_A1 then Some (JObject [(ascii ''a'', JNumber 1)])
      else None)"

definition sample_parser :: parser where
  "sample_parser = Abs_parser sample_table"

definition sample_message :: "role \<Rightarrow> jsstring \<Rightarrow> message" where
  "sample_message r c =
     \<lparr>mid = ascii ''m1'', role = r, content = c, timestamp = DateObject 0, isLiked = None, isDisliked = None\<rparr>"

definition sample_clock :: "nat \<Rightarrow> nat" where
  "sample_clock k = 5 + k"

definition sample_to_text :: "json \<Rightarrow> jsstring" where
  "sample_to_text v = ascii ''[object Object]''"

definition respond_with :: "nat \<Rightarrow> jsstring \<Rightarrow> request \<Rightarrow> fetch_result" where
  "respond_with status txt req = Responded status txt"

definition sample_session :: "jsstring \<Rightarrow> jsstring \<Rightarrow> message list \<Rightarrow> chat_session" where
  "sample_session i t ms = \<lparr>sid = i, title = t, messages = ms, updatedAt = 1\<rparr>"

definition sample_state :: "chat_session list \<Rightarrow> jsstring \<Rightarrow> app_state" where
  "sample_state ss cur =
     \<lparr>sessions = ss, currentSessionId = Some cur, language = EN, isInitialized = True, bgImage = None\<rparr>"

definition empty_storage :: storage where
  "empty_storage = \<lparr>orion_sessions = None, orion_current_session_id = None, orion_bg_image = None\<rparr>"












section \<open>Properties of the response extractor\<close>

lemma sample_table_bounded: "sample_table t = Some v \<Longrightarrow> jsize v \<le> length t"
  by (auto simp: sample_table_def TEXT_ZERO_def TEXT_REPLY_HI_def TEXT_A1_def quoted_def ascii_def
      split: if_splits)

lemma JSON_parse_sample: "JSON_parse sample_parser t = sample_table t"
  by (simp add: JSON_parse_def sample_parser_def Abs_parser_inverse sample_table_bounded)

lemmas sample_defs = JSON_parse_sample sample_table_def TEXT_ZERO_def TEXT_REPLY_HI_def TEXT_A1_def
  quoted_def ascii_def

lemma string_field_Some_iff:
  "string_field kvs k = Some s \<longleftrightarrow> get_prop kvs k = Some (JString s) \<and> s \<noteq> []"
  by (auto simp: string_field_def split: option.splits json.splits)

lemma string_field_None_iff:
  "string_field kvs k = None \<longleftrightarrow> (\<forall>t. t \<noteq> [] \<longrightarrow> get_prop kvs k \<noteq> Some (JString t))"
  by (auto simp: string_field_def split: option.splits json.splits)

text \<open>
  Claim C1. On an object in which the recognized field of position \<open>i\<close> of the
  priority list holds a non-empty string \<open>s\<close>, and no field before it in the list
  holds a non-empty string, \<open>findResponseText\<close> returns \<open>s\<close>, whatever the parser and
  whatever the other properties of the object contain.
\<close>

theorem findResponseText_priority_field:
  assumes i: "i < length reply_fields"
    and holds: "get_prop kvs (reply_fields ! i) = Some (JString s)" "s \<noteq> []"
    and higher: "\<forall>j<i. \<forall>t. t \<noteq> [] \<longrightarrow> get_prop kvs (reply_fields ! j) \<noteq> Some (JString t)"
  shows "findResponseText P (JObject kvs) = Some s"
proof -
  have here: "string_field kvs (reply_fields ! i) = Some s"
    using holds by (simp add: string_field_Some_iff)
  have above: "string_field kvs (reply_fields ! j) = None" if "j < i" for j
    using higher that by (simp add: string_field_None_iff)
  from i have "i = 0 \<or> i = 1 \<or> i = 2 \<or> i = 3 \<or> i = 4"
    by (simp add: reply_fields_def) arith
  then have "direct_field kvs = Some s"
  proof (elim disjE)
    assume "i = 0"
    with here show ?thesis by (simp add: direct_field_def reply_fields_def)
  next
    assume "i = 1"
    with here above [of 0] show ?thesis by (simp add: direct_field_def reply_fields_def)
  next
    assume "i = 2"
    with here above [of 0] above [of 1] show ?thesis
      by (simp add: direct_field_def reply_fields_def)
  next
    assume "i = 3"
    with here above [of 0] above [of 1] above [of 2] show ?thesis
      by (simp add: direct_field_def reply_fields_def)
  next
    assume "i = 4"
    with here above [of 0] above [of 1] above [of 2] above [of 3] show ?thesis
      by (simp add: direct_field_def reply_fields_def)
  qed
  then show ?thesis by simp
qed

theorem findResponseText_priority_field_witness:
  "findResponseText sample_parser
     (JObject [(ascii ''message'', JString (ascii ''low'')),
               (ascii ''nested'', JObject [(ascii ''text_response'', JString (ascii ''deep''))]),
               (ascii ''output'', JString (ascii ''hi'')),
               (ascii ''text_response'', JNumber 3)])
   = Some (ascii ''hi'')"
  by (rule findResponseText_priority_field [where i = 1]) (simp_all add: reply_fields_def get_prop_def ascii_def)

lemma truthy_nonempty: "truthy r \<noteq> Some []"
  by (simp add: truthy_def split: option.splits)

lemma direct_field_nonempty: "direct_field kvs \<noteq> Some []"
  by (auto simp: direct_field_def string_field_Some_iff split: option.splits)

lemma find_nonempty:
  "findResponseText P d \<noteq> Some []" "scanItems P xs \<noteq> Some []"
proof (induction P d and P xs rule: findResponseText_scanItems.induct)
  case (4 P s)
  show ?case
    by (auto simp: Let_def truthy_nonempty split: option.splits)
next
  case (6 P kvs)
  then show ?case by (auto simp: direct_field_nonempty split: option.splits)
next
  case (8 P x xs)
  then show ?case by (auto simp: truthy_nonempty split: option.splits)
qed simp_all

text \<open>
  Claim C9. \<open>findResponseText\<close> never returns the empty string: its result is \<open>null\<close>
  or a non-empty string.
\<close>

theorem findResponseText_never_empty: "findResponseText P d \<noteq> Some []"
  by (rule find_nonempty(1))

theorem findResponseText_never_empty_witness:
  "findResponseText sample_parser
     (JArray [JNumber 7, JObject [(ascii ''output'', JString [])],
              JString (ascii ''json '' @ TEXT_REPLY_HI @ ascii '' '')])
   = Some (ascii ''hi'')
   \<and> ascii ''hi'' \<noteq> []"
proof -
  have "findResponseText sample_parser
     (JArray [JNumber 7, JObject [(ascii ''output'', JString [])],
              JString (ascii ''json '' @ TEXT_REPLY_HI @ ascii '' '')])
   = Some (ascii ''hi'')"
    by (simp add: sample_defs direct_field_def string_field_def get_prop_def truthy_def trim_def
        js_space_def lastIndexOf_def substring_def Let_def)
  with findResponseText_never_empty [of sample_parser "JArray [JNumber 7, JObject [(ascii ''output'', JString [])],
              JString (ascii ''json '' @ TEXT_REPLY_HI @ ascii '' '')]"]
  show ?thesis by (cases "ascii ''hi''") auto
qed

lemma direct_field_occurs:
  "direct_field kvs = Some s \<Longrightarrow> \<exists>k \<in> set reply_fields. get_prop kvs k = Some (JString s) \<and> s \<noteq> []"
  by (auto simp: direct_field_def reply_fields_def string_field_Some_iff split: option.splits)

lemma truthy_Some: "truthy r = Some s \<Longrightarrow> r = Some s"
  by (auto simp: truthy_def split: option.splits if_splits)

lemma found_occurs:
  "findResponseText P d = Some r \<Longrightarrow> reply_occurs P d"
  "scanItems P xs = Some r \<Longrightarrow> \<exists>x \<in> set xs. reply_occurs P x"
proof (induction P d and P xs arbitrary: r and r rule: findResponseText_scanItems.induct)
  case (4 P s)
  let ?t = "trim s"
  let ?A = "case JSON_parse P ?t of None \<Rightarrow> None
            | Some parsed \<Rightarrow> truthy (findResponseText P parsed)"
  let ?u = "substring ?t (indexOf ?t LBRACE) (lastIndexOf ?t RBRACE + 1)"
  from "4.prems" have ne: "s \<noteq> []"
    and br: "js_includes ?t [LBRACE] \<and> js_includes ?t [RBRACE]"
    by (auto simp: Let_def split: if_splits)
  show ?case
  proof (cases ?A)
    case (Some found)
    then obtain parsed where p: "JSON_parse P ?t = Some parsed"
      and f: "findResponseText P parsed = Some found"
      by (auto split: option.splits dest: truthy_Some)
    from "4.IH"(1) [OF ne refl br p f] have "reply_occurs P parsed" .
    with p show ?thesis by (rule reply_occurs.in_text)
  next
    case None
    with "4.prems" ne br
    have cond: "indexOf ?t LBRACE \<noteq> - 1 \<and> indexOf ?t LBRACE < lastIndexOf ?t RBRACE"
      and neq: "?u \<noteq> ?t"
      and ex: "\<exists>pd. JSON_parse P ?u = Some pd \<and> findResponseText P pd = Some r"
      by (auto simp: Let_def split: if_splits option.splits dest: truthy_Some)
    from ex obtain pd where p: "JSON_parse P ?u = Some pd"
      and f: "findResponseText P pd = Some r" by blast
    from "4.IH"(2) [OF ne refl br None refl refl cond refl neq p f]
    have "reply_occurs P pd" .
    moreover from p have "JSON_parse P (between_braces ?t) = Some pd"
      by (simp add: between_braces_def)
    ultimately show ?thesis by (rule reply_occurs.in_braces [rotated])
  qed
next
  case (5 P xs)
  then show ?case by (auto intro: reply_occurs.in_element)
next
  case (6 P kvs)
  show ?case
  proof (cases "direct_field kvs")
    case None
    with "6.prems" have "scanItems P (map snd kvs) = Some r" by simp
    with "6.IH" None obtain v where "v \<in> set (map snd kvs)" "reply_occurs P v" by blast
    then show ?thesis by (auto intro: reply_occurs.in_member)
  next
    case (Some s)
    then show ?thesis by (auto dest!: direct_field_occurs intro: reply_occurs.in_field)
  qed
next
  case (8 P x xs)
  from "8.prems" show ?case
    by (auto split: option.splits dest!: truthy_Some dest: "8.IH")
qed simp_all

text \<open>
  Claim C2. \<open>findResponseText\<close> is a total function: the termination proof above
  measures a call by the size of its argument, which every recursive call makes
  smaller, a child being smaller than its parent and a parsed value no larger than
  the text it was parsed from, which is at most the string it was cut from. It throws
  nothing, every \<open>JSON.parse\<close> being inside a \<open>try\<close>. On a value in which no recognized
  field holding a non-empty string occurs, its result is \<open>null\<close>.
\<close>

theorem findResponseText_no_reply_null: "\<not> reply_occurs P d \<Longrightarrow> findResponseText P d = None"
  using found_occurs(1) [of P d] by (cases "findResponseText P d") auto

theorem findResponseText_no_reply_null_witness:
  "\<not> reply_occurs sample_parser
       (JArray [JNumber 1, JString (ascii '' '' @ TEXT_A1),
                JObject [(ascii ''output'', JString []), (ascii ''note'', JString (ascii ''plain''))]])
   \<and> findResponseText sample_parser
       (JArray [JNumber 1, JString (ascii '' '' @ TEXT_A1),
                JObject [(ascii ''output'', JString []), (ascii ''note'', JString (ascii ''plain''))]])
     = None"
proof -
  have "\<not> reply_occurs sample_parser
       (JArray [JNumber 1, JString (ascii '' '' @ TEXT_A1),
                JObject [(ascii ''output'', JString []), (ascii ''note'', JString (ascii ''plain''))]])"
    by (auto simp: reply_occurs_JArray reply_occurs_JString reply_occurs_JObject reply_occurs_JNumber
        reply_fields_def get_prop_def sample_defs between_braces_def trim_def js_space_def
        lastIndexOf_def substring_def Let_def)
  then show ?thesis using findResponseText_no_reply_null by blast
qed

section \<open>Properties of the remote send operation\<close>

text \<open>
  Claim C3, as stated, fails: the code chooses the start-of-conversation marker by
  looking at the messages that differ from the input text, before it drops the blank
  ones. With a history of one blank message the bounded set is empty and the summary
  is the empty string, not the marker.
\<close>

theorem memoryContext_blank_history_counterexample:
  "bounded_context (ascii ''hi'') [sample_message User (ascii '' '')] = []
   \<and> memoryContext (ascii ''hi'') [sample_message User (ascii '' '')] = []
   \<and> memoryContext (ascii ''hi'') [sample_message User (ascii '' '')] \<noteq> START_MARKER"
  by (simp add: bounded_context_def memoryContext_def sample_message_def slice_last_def trim_def
      js_space_def ascii_def START_MARKER_def)

text \<open>
  Claim C3, amended. The summary is the marker exactly when every history message has
  the input text as its content; otherwise it is the lines \<open>Role: content\<close> of the
  bounded set, in the order of the history, joined by line feeds (the empty string
  when the bounded set is empty).
\<close>

theorem memoryContext_summary:
  "memoryContext text history =
     (if \<forall>m \<in> set history. content m = text then START_MARKER
      else join [0xA] (map context_line (bounded_context text history)))"
proof -
  have "filter (\<lambda>m. trim (content m) \<noteq> []) (filter (\<lambda>m. content m \<noteq> text) history)
        = filter (\<lambda>m. content m \<noteq> text \<and> trim (content m) \<noteq> []) history"
    by simp
  moreover have "filter (\<lambda>m. content m \<noteq> text) history = [] \<longleftrightarrow> (\<forall>m \<in> set history. content m = text)"
    by (simp add: filter_empty_conv)
  ultimately show ?thesis
    by (simp add: memoryContext_def bounded_context_def Let_def)
qed

theorem memoryContext_summary_witness:
  "\<not> (\<forall>m \<in> set [sample_message User (ascii ''hi''), sample_message Assistant (ascii ''hello''),
                     sample_message User (ascii ''weather?'')]. content m = ascii ''weather?'')
   \<and> memoryContext (ascii ''weather?'')
        [sample_message User (ascii ''hi''), sample_message Assistant (ascii ''hello''),
         sample_message User (ascii ''weather?'')]
     = ascii ''User: hi'' @ [0xA] @ ascii ''Orion: hello''"
  using memoryContext_summary [of "ascii ''weather?''"
      "[sample_message User (ascii ''hi''), sample_message Assistant (ascii ''hello''),
        sample_message User (ascii ''weather?'')]"]
  by (simp add: bounded_context_def sample_message_def slice_last_def trim_def js_space_def
      ascii_def context_line_def)

lemma falsy_not_found: "\<not> json_truthy j \<Longrightarrow> findResponseText P j = None"
  by (cases j) simp_all

lemma truthy_found: "truthy (findResponseText P j) = findResponseText P j"
  using find_nonempty(1) [of P j] by (auto simp: truthy_def split: option.splits)

lemma trim_Nil: "trim [] = []"
  by (simp add: trim_def)

lemma handleResponse_ok:
  assumes "200 \<le> status" "status \<le> 299"
  shows "handleResponse P to_text status textResult = Inr (reply_of_body P textResult)"
proof (cases "JSON_parse P textResult")
  case None
  with assms show ?thesis
    by (auto simp: handleResponse_def reply_of_body_def trim_Nil)
next
  case (Some j)
  show ?thesis
  proof (cases "findResponseText P j")
    case None
    with Some assms show ?thesis
      by (auto simp: handleResponse_def reply_of_body_def trim_Nil truthy_def)
  next
    case (Some r)
    then have t: "json_truthy j" using falsy_not_found [of j P] by auto
    have "truthy (findResponseText P j) = Some r"
      unfolding truthy_found by (rule Some)
    with t \<open>JSON_parse P textResult = Some j\<close> Some assms show ?thesis
      by (simp add: handleResponse_def reply_of_body_def)
  qed
qed

text \<open>
  Claim C6, amended. For a response with a status from 200 to 299, \<open>sendMessageToOrion\<close>
  resolves with \<open>reply_of_body\<close> of the body text.
\<close>

theorem send_success_reply:
  assumes "fetchWithFallback net (basePayload text history) = Responded status textResult"
    and "200 \<le> status" and "status \<le> 299"
  shows "sendMessageToOrion P to_text net text history = Resolved (reply_of_body P textResult)"
  using assms by (simp add: sendMessageToOrion_def handleResponse_ok)

text \<open>
  Claim C6, as stated, fails on the body \<open>0\<close> with status 200: the body parses, to the
  number zero, in which the extractor finds nothing, so the claim gives the placeholder;
  the code tests \<open>!jsonResult\<close>, which holds for zero, and returns the raw text \<open>0\<close>.
\<close>

theorem send_success_reply_counterexample:
  "JSON_parse sample_parser TEXT_ZERO = Some (JNumber 0)
   \<and> findResponseText sample_parser (JNumber 0) = None
   \<and> sendMessageToOrion sample_parser sample_to_text (respond_with 200 TEXT_ZERO) (ascii ''hi'') []
       = Resolved TEXT_ZERO
   \<and> reply_as_claimed sample_parser TEXT_ZERO = MSG_UNDECODABLE
   \<and> TEXT_ZERO \<noteq> MSG_UNDECODABLE"
  by (simp add: sendMessageToOrion_def fetchWithFallback_def respond_with_def handleResponse_def
      reply_as_claimed_def sample_defs MSG_UNDECODABLE_def trim_def js_space_def)

theorem send_success_reply_witness:
  "fetchWithFallback (respond_with 200 TEXT_REPLY_HI) (basePayload (ascii ''hi'') [])
     = Responded 200 TEXT_REPLY_HI
   \<and> (200::nat) \<le> 200 \<and> (200::nat) \<le> 299
   \<and> sendMessageToOrion sample_parser sample_to_text (respond_with 200 TEXT_REPLY_HI)
        (ascii ''hi'') []
     = Resolved (ascii ''hi'')"
proof -
  have f: "fetchWithFallback (respond_with 200 TEXT_REPLY_HI) (basePayload (ascii ''hi'') [])
     = Responded 200 TEXT_REPLY_HI"
    by (simp add: fetchWithFallback_def respond_with_def)
  have r: "reply_of_body sample_parser TEXT_REPLY_HI = ascii ''hi''"
    by (simp add: reply_of_body_def sample_defs direct_field_def string_field_def get_prop_def)
  from send_success_reply [OF f, of sample_parser sample_to_text] r f show ?thesis by simp
qed

lemma MSG_404_mentions_404: "js_includes MSG_404 (ascii ''404'')"
  by (simp add: MSG_404_def ascii_def)

lemma Error_name: "ascii ''Error'' \<noteq> ascii ''AbortError''" "ascii ''Error'' \<noteq> ascii ''TypeError''"
  by (simp_all add: ascii_def)

text \<open>
  Claim C7. A response with status 404, received from the first request or from the
  fallback request, makes \<open>sendMessageToOrion\<close> resolve with the fixed message about
  the endpoint address, whatever the body text is: the error thrown for the status
  is caught by the outer \<open>catch\<close>, which returns its message because it mentions 404.
\<close>

theorem send_404_misconfigured:
  assumes "fetchWithFallback net (basePayload text history) = Responded 404 textResult"
  shows "sendMessageToOrion P to_text net text history = Resolved MSG_404"
  using assms
  by (simp add: sendMessageToOrion_def handleResponse_def MSG_404_mentions_404 Error_name)

theorem send_404_misconfigured_witness:
  "fetchWithFallback (respond_with 404 TEXT_REPLY_HI) (basePayload (ascii ''hi'') [])
     = Responded 404 TEXT_REPLY_HI
   \<and> sendMessageToOrion sample_parser sample_to_text (respond_with 404 TEXT_REPLY_HI) (ascii ''hi'') []
     = Resolved MSG_404"
proof -
  have f: "fetchWithFallback (respond_with 404 TEXT_REPLY_HI) (basePayload (ascii ''hi'') [])
     = Responded 404 TEXT_REPLY_HI"
    by (simp add: fetchWithFallback_def respond_with_def)
  from send_404_misconfigured [OF f] f show ?thesis by simp
qed

section \<open>Properties of the session store\<close>

lemma length_updateSessions [simp]:
  "length (updateSessions clock k cur newMessages ss) = length ss"
  by (induction ss arbitrary: k) simp_all

lemma updateSessions_title:
  "i < length ss \<Longrightarrow> sid (ss ! i) = cur \<Longrightarrow>
   title (updateSessions clock k cur (m # ms) ss ! i)
   = (if is_placeholder (title (ss ! i)) \<or> messages (ss ! i) = []
      then derive_title (content m)
      else title (ss ! i))"
proof (induction ss arbitrary: i k)
  case Nil
  then show ?case by simp
next
  case (Cons s ss)
  show ?case
  proof (cases i)
    case 0
    with Cons.prems show ?thesis
      by (simp add: updateSession_def is_placeholder_def)
  next
    case (Suc j)
    with Cons.prems Cons.IH [of j] show ?thesis by simp
  qed
qed

text \<open>
  Claim C4, as stated, fails: the code also derives a new title when the session's
  message log is empty, whatever its title is. A session titled \<open>Trip\<close> with no
  messages gets the title \<open>hello\<close> from the first message of the new log.
\<close>

theorem updateCurrentMessages_title_counterexample:
  "\<not> is_placeholder (ascii ''Trip'')
   \<and> sessions (updateCurrentMessages sample_clock [sample_message User (ascii ''hello'')]
        (sample_state [sample_session (ascii ''1'') (ascii ''Trip'') []] (ascii ''1'')))
     = [\<lparr>sid = ascii ''1'', title = ascii ''hello'',
         messages = [sample_message User (ascii ''hello'')], updatedAt = 5\<rparr>]"
  by (simp add: is_placeholder_def updateCurrentMessages_def updateSession_def setSessions_def
      sample_state_def sample_session_def sample_message_def sample_clock_def derive_title_def
      TITLE_ZH_def TITLE_EN_def ascii_def)

text \<open>
  Claim C4, amended. For the session of the current id and a non-empty new message
  log, \<open>updateCurrentMessages\<close> sets the title to the first message's content cut to
  20 code units, with \<open>...\<close> added when it was longer, if the title is a placeholder or
  the session's message log is empty; otherwise it leaves the title as it is.
\<close>

theorem updateCurrentMessages_title:
  assumes "currentSessionId st = Some cur" and "cur \<noteq> []"
    and "i < length (sessions st)" and "sid (sessions st ! i) = cur"
  shows "title (sessions (updateCurrentMessages clock (m # ms) st) ! i)
         = (if is_placeholder (title (sessions st ! i)) \<or> messages (sessions st ! i) = []
            then derive_title (content m)
            else title (sessions st ! i))"
  using assms
  by (simp add: updateCurrentMessages_def setSessions_def updateSessions_title)

theorem updateCurrentMessages_title_witness:
  "title (sessions (updateCurrentMessages sample_clock
        [sample_message User (ascii ''What is the weather like today?'')]
        (sample_state [sample_session (ascii ''2'') (ascii ''Trip'') [sample_message User (ascii ''x'')],
                       sample_session (ascii ''1'') TITLE_EN []] (ascii ''1''))) ! 1)
     = ascii ''What is the weather ...''
   \<and> title (sessions (updateCurrentMessages sample_clock
        [sample_message User (ascii ''What is the weather like today?'')]
        (sample_state [sample_session (ascii ''2'') (ascii ''Trip'') [sample_message User (ascii ''x'')],
                       sample_session (ascii ''1'') TITLE_EN []] (ascii ''2''))) ! 0)
     = ascii ''Trip''"
proof -
  let ?ss = "[sample_session (ascii ''2'') (ascii ''Trip'') [sample_message User (ascii ''x'')],
              sample_session (ascii ''1'') TITLE_EN []]"
  let ?m = "sample_message User (ascii ''What is the weather like today?'')"
  have a: "title (sessions (updateCurrentMessages sample_clock [?m] (sample_state ?ss (ascii ''1''))) ! 1)
           = ascii ''What is the weather ...''"
    using updateCurrentMessages_title [of "sample_state ?ss (ascii ''1'')" "ascii ''1''" 1 sample_clock ?m "[]"]
    by (simp add: sample_state_def sample_session_def sample_message_def is_placeholder_def
        derive_title_def ascii_def)
  have b: "title (sessions (updateCurrentMessages sample_clock [?m] (sample_state ?ss (ascii ''2''))) ! 0)
           = ascii ''Trip''"
    using updateCurrentMessages_title [of "sample_state ?ss (ascii ''2'')" "ascii ''2''" 0 sample_clock ?m "[]"]
    by (simp add: sample_state_def sample_session_def sample_message_def is_placeholder_def
        TITLE_ZH_def TITLE_EN_def ascii_def)
  from a b show ?thesis by simp
qed

lemma initialize_nonempty: "sessions (initialize parse now_id now_upd store st) \<noteq> []"
  by (auto simp: initialize_def Let_def setSessions_def setCurrentSessionId_def
      split: list.splits option.splits)

lemma createNewSession_nonempty: "sessions (createNewSession now_id now_upd st) \<noteq> []"
  by (simp add: createNewSession_def Let_def setSessions_def setCurrentSessionId_def)

lemma deleteSession_nonempty: "sessions (deleteSession now_id now_upd ident st) \<noteq> []"
  by (auto simp: deleteSession_def Let_def setSessions_def setCurrentSessionId_def
      createNewSession_nonempty split: list.splits)

lemma updateCurrentMessages_nonempty:
  "sessions st \<noteq> [] \<Longrightarrow> sessions (updateCurrentMessages clock newMessages st) \<noteq> []"
proof -
  have "updateSessions clock k cur newMessages ss = [] \<longleftrightarrow> ss = []" for k cur ss
    by (cases ss) simp_all
  then show "sessions st \<noteq> [] \<Longrightarrow> sessions (updateCurrentMessages clock newMessages st) \<noteq> []"
    by (auto simp: updateCurrentMessages_def setSessions_def split: option.splits)
qed

lemma reachable_nonempty: "reachable st \<Longrightarrow> sessions st \<noteq> []"
proof (induction rule: reachable.induct)
  case (init parse now_id now_upd store)
  show ?case by (rule initialize_nonempty)
next
  case (new_chat st now_id now_upd)
  show ?case by (rule createNewSession_nonempty)
next
  case (select st ident)
  then show ?case by (simp add: setCurrentSessionId_def)
next
  case (delete st now_id now_upd ident)
  show ?case by (rule deleteSession_nonempty)
next
  case (update st clock newMessages)
  then show ?case by (simp add: updateCurrentMessages_nonempty)
next
  case (toggle st)
  then show ?case by simp
next
  case (background st img)
  then show ?case by simp
qed

text \<open>
  Claim C5. Deleting the only session leaves exactly one session, the one that
  \<open>createSessionObject\<close> makes: no messages, a placeholder title; its id is the current
  id. And in every state the store reaches once initialized, there is at least one
  session.
\<close>

theorem deleteSession_only_session:
  "(sessions st = [s] \<longrightarrow>
      sessions (deleteSession now_id now_upd (sid s) st) = [createSessionObject (language st) now_id now_upd]
      \<and> currentSessionId (deleteSession now_id now_upd (sid s) st)
          = Some (sid (createSessionObject (language st) now_id now_upd))
      \<and> messages (createSessionObject (language st) now_id now_upd) = []
      \<and> is_placeholder (title (createSessionObject (language st) now_id now_upd)))
   \<and> (reachable st \<longrightarrow> sessions st \<noteq> [])"
  by (auto simp: deleteSession_def createNewSession_def Let_def setSessions_def
      setCurrentSessionId_def createSessionObject_def is_placeholder_def reachable_nonempty)

theorem deleteSession_only_session_witness:
  "sessions (deleteSession 1700000000000 1700000000001 (ascii ''1'')
       (sample_state [sample_session (ascii ''1'') (ascii ''Trip'') []] (ascii ''1'')))
     = [\<lparr>sid = ascii ''1700000000000'', title = TITLE_EN, messages = [], updatedAt = 1700000000001\<rparr>]
   \<and> currentSessionId (deleteSession 1700000000000 1700000000001 (ascii ''1'')
       (sample_state [sample_session (ascii ''1'') (ascii ''Trip'') []] (ascii ''1'')))
     = Some (ascii ''1700000000000'')
   \<and> reachable (deleteSession 8 9 (ascii ''7'') (initialize (\<lambda>t. Unparseable) 7 7 empty_storage initial_state))
   \<and> sessions (deleteSession 8 9 (ascii ''7'') (initialize (\<lambda>t. Unparseable) 7 7 empty_storage initial_state))
     \<noteq> []"
proof -
  let ?st = "sample_state [sample_session (ascii ''1'') (ascii ''Trip'') []] (ascii ''1'')"
  let ?s = "sample_session (ascii ''1'') (ascii ''Trip'') []"
  let ?st' = "deleteSession 8 9 (ascii ''7'') (initialize (\<lambda>t. Unparseable) 7 7 empty_storage initial_state)"
  have one: "sessions ?st = [?s]" by (simp add: sample_state_def)
  have id: "sid ?s = ascii ''1''" by (simp add: sample_session_def)
  have lang: "language ?st = EN" by (simp add: sample_state_def)
  have fresh: "createSessionObject EN 1700000000000 1700000000001
     = \<lparr>sid = ascii ''1700000000000'', title = TITLE_EN, messages = [], updatedAt = 1700000000001\<rparr>"
    by (simp add: createSessionObject_def digits.simps ascii_def)
  have r: "reachable ?st'" by (intro reachable.delete reachable.init)
  from deleteSession_only_session [of ?st ?s 1700000000000 1700000000001] one id lang fresh
  have a: "sessions (deleteSession 1700000000000 1700000000001 (ascii ''1'') ?st)
     = [\<lparr>sid = ascii ''1700000000000'', title = TITLE_EN, messages = [], updatedAt = 1700000000001\<rparr>]
     \<and> currentSessionId (deleteSession 1700000000000 1700000000001 (ascii ''1'') ?st)
     = Some (ascii ''1700000000000'')"
    by simp
  from deleteSession_only_session [of ?st' ?s 0 0] r have b: "sessions ?st' \<noteq> []" by blast
  from a b r show ?thesis by simp
qed

lemma filter_other_ids:
  assumes "distinct (map sid (before @ s # after))"
  shows "filter (\<lambda>x. sid x \<noteq> sid s) (before @ s # after) = before @ after"
proof -
  from assms have "sid s \<notin> sid ` set before" "sid s \<notin> sid ` set after"
    by auto
  then have "\<forall>x \<in> set before. sid x \<noteq> sid s" "\<forall>x \<in> set after. sid x \<noteq> sid s"
    by (metis imageI)+
  then show ?thesis by simp
qed

text \<open>
  Claim C10, amended. In a state with at least two sessions whose ids are pairwise
  distinct, deleting a session whose id is not the current id removes that session
  and changes nothing else: the other sessions, their order, the current id and the
  rest of the state are as before.
\<close>

theorem deleteSession_other_session:
  assumes "distinct (map sid (sessions st))"
    and "2 \<le> length (sessions st)"
    and "sessions st = before @ s # after"
    and "currentSessionId st \<noteq> Some (sid s)"
  shows "deleteSession now_id now_upd (sid s) st = st\<lparr>sessions := before @ after\<rparr>"
proof -
  from assms(1,3) have f: "filter (\<lambda>x. sid x \<noteq> sid s) (sessions st) = before @ after"
    using filter_other_ids [of before s after] by (simp del: distinct_append map_append)
  from assms(2,3) have "before @ after \<noteq> []" by auto
  then obtain first rest where "before @ after = first # rest" by (cases "before @ after") auto
  with f assms(4) show ?thesis
    by (simp add: deleteSession_def Let_def setSessions_def)
qed

text \<open>
  Claim C10, as stated, fails where two sessions carry the same id, which the code
  does not exclude (the id is the clock reading in milliseconds at creation, and a
  stored collection is loaded as it is): of three sessions with the ids 1, 1 and 2,
  the last being current, deleting the id 1 removes both the first and the second.
\<close>

theorem deleteSession_other_session_counterexample:
  "2 \<le> length (sessions (sample_state
        [sample_session (ascii ''1'') (ascii ''a'') [], sample_session (ascii ''1'') (ascii ''b'') [],
         sample_session (ascii ''2'') (ascii ''c'') []] (ascii ''2'')))
   \<and> currentSessionId (sample_state
        [sample_session (ascii ''1'') (ascii ''a'') [], sample_session (ascii ''1'') (ascii ''b'') [],
         sample_session (ascii ''2'') (ascii ''c'') []] (ascii ''2'')) \<noteq> Some (ascii ''1'')
   \<and> sessions (deleteSession 8 9 (ascii ''1'') (sample_state
        [sample_session (ascii ''1'') (ascii ''a'') [], sample_session (ascii ''1'') (ascii ''b'') [],
         sample_session (ascii ''2'') (ascii ''c'') []] (ascii ''2'')))
     = [sample_session (ascii ''2'') (ascii ''c'') []]"
  by (simp add: deleteSession_def Let_def setSessions_def sample_state_def sample_session_def ascii_def)

theorem deleteSession_other_session_witness:
  "deleteSession 8 9 (ascii ''1'') (sample_state
        [sample_session (ascii ''3'') (ascii ''a'') [], sample_session (ascii ''1'') (ascii ''b'') [],
         sample_session (ascii ''2'') (ascii ''c'') []] (ascii ''2''))
   = sample_state [sample_session (ascii ''3'') (ascii ''a'') [], sample_session (ascii ''2'') (ascii ''c'') []]
       (ascii ''2'')"
  using deleteSession_other_session [of
      "sample_state [sample_session (ascii ''3'') (ascii ''a'') [], sample_session (ascii ''1'') (ascii ''b'') [],
         sample_session (ascii ''2'') (ascii ''c'') []] (ascii ''2'')"
      "[sample_session (ascii ''3'') (ascii ''a'') []]" "sample_session (ascii ''1'') (ascii ''b'') []"
      "[sample_session (ascii ''2'') (ascii ''c'') []]" 8 9]
  by (simp add: sample_state_def sample_session_def ascii_def)


section \<open>Properties of the stored text\<close>

subsection \<open>The reader is not cut short\<close>

text \<open>
  Every successful step of the reader consumes input, so a count above twice the
  length of the text is never used up: raising the count does not change the result.
\<close>

lemma length_skip_ws: "length (skip_ws ts) \<le> length ts"
  by (simp add: skip_ws_def length_dropWhile_le)

lemma skip_ws_Cons: "skip_ws ts = c # cs \<Longrightarrow> length cs < length ts"
  using length_skip_ws [of ts] by simp

lemma parse_chars_shorter: "parse_chars cs = Some (s, rest) \<Longrightarrow> length rest < length cs"
proof (induction cs arbitrary: s rest rule: parse_chars.induct)
  case 1
  then show ?case by simp
next
  case (2 c cs)
  show ?case
  proof (cases "c = 0x22")
    case True
    with "2.prems" show ?thesis by simp
  next
    case q: False
    show ?thesis
    proof (cases "c = 0x5C")
      case True
      with q "2.prems" obtain e es where es: "cs = e # es" by (cases cs) auto
      show ?thesis
      proof (cases "e = 0x75")
        case u: True
        with True q es "2.prems" obtain h1 h2 h3 h4 tail v s' where
          t: "es = h1 # h2 # h3 # h4 # tail" "hex4 h1 h2 h3 h4 = Some v"
          "parse_chars tail = Some (s', rest)"
          by (auto split: list.splits option.splits)
        from "2.IH"(1) [OF q True es u t(1) refl refl refl t(2) t(3)] es t(1) show ?thesis by simp
      next
        case nu: False
        with True q es "2.prems" obtain v s' where
          t: "simple_escape e = Some v" "parse_chars es = Some (s', rest)"
          by (auto split: option.splits)
        from "2.IH"(2) [OF q True es nu t(1) t(2)] es show ?thesis by simp
      qed
    next
      case False
      with q "2.prems" obtain s' where t: "\<not> c < 0x20" "parse_chars cs = Some (s', rest)"
        by (auto split: option.splits if_splits)
      from "2.IH"(3) [OF q False t(1) t(2)] show ?thesis by simp
    qed
  qed
qed

lemma parse_number_shorter: "parse_number ts = Some (q, rest) \<Longrightarrow> length rest < length ts"
proof -
  assume a: "parse_number ts = Some (q, rest)"
  define t1 where "t1 = (if ts \<noteq> [] \<and> hd ts = 0x2D then tl ts else ts)"
  have t1: "length t1 \<le> length ts" by (simp add: t1_def)
  from a have ip: "takeWhile is_digit t1 \<noteq> []"
    by (auto simp: parse_number_def Let_def t1_def split: if_splits)
  have "length (takeWhile is_digit t1) + length (dropWhile is_digit t1) = length t1"
    by (metis length_append takeWhile_dropWhile_id)
  with ip have d: "length (dropWhile is_digit t1) < length t1"
    by (cases "takeWhile is_digit t1") simp_all
  have f: "parse_fraction xs = Some (fp, t3) \<Longrightarrow> length t3 \<le> length xs" for xs fp t3
    by (auto simp: parse_fraction_def split: list.splits if_splits
        intro: le_trans [OF length_dropWhile_le])
  have e: "parse_exponent xs = Some (ex, t4) \<Longrightarrow> length t4 \<le> length xs" for xs ex t4
    by (auto simp: parse_exponent_def Let_def split: list.splits if_splits
        intro: le_trans [OF length_dropWhile_le] le_SucI)
  from a obtain fp t3 ex where
    "parse_fraction (dropWhile is_digit t1) = Some (fp, t3)" "parse_exponent t3 = Some (ex, rest)"
    by (auto simp: parse_number_def Let_def t1_def split: if_splits option.splits)
  with f e have "length rest \<le> length (dropWhile is_digit t1)" by (meson le_trans)
  with d t1 show ?thesis by simp
qed

lemma parse_shorter:
  "parse_value n ts = Some (v, rest) \<Longrightarrow> length rest < length ts"
  "parse_elements n ts es = Some (v, rest) \<Longrightarrow> length rest < length ts"
  "parse_members n ts ms = Some (v, rest) \<Longrightarrow> length rest < length ts"
proof (induction n ts and n ts es and n ts ms arbitrary: v rest and v rest and v rest
    rule: parse_value_parse_elements_parse_members.induct)
  case (1 ts)
  then show ?case by simp
next
  case (2 n ts)
  from "2.prems" obtain c cs where sk: "skip_ws ts = c # cs"
    by (cases "skip_ws ts") auto
  then have len: "length cs < length ts" by (rule skip_ws_Cons)
  show ?case
  proof (cases "c = 0x7B")
    case True
    with "2.prems" sk obtain d ds where sd: "skip_ws cs = d # ds"
      by (cases "skip_ws cs") auto
    then have l2: "length ds < length cs" by (rule skip_ws_Cons)
    show ?thesis
    proof (cases "d = 0x7D")
      case True
      with \<open>c = 0x7B\<close> "2.prems" sk sd len l2 show ?thesis by simp
    next
      case False
      with \<open>c = 0x7B\<close> "2.prems" sk sd have "parse_members n (d # ds) [] = Some (v, rest)" by simp
      from "2.IH"(1) [OF sk \<open>c = 0x7B\<close> sd False this] l2 len show ?thesis by simp
    qed
  next
    case nb: False
    show ?thesis
    proof (cases "c = 0x5B")
      case True
      with nb "2.prems" sk obtain d ds where sd: "skip_ws cs = d # ds"
        by (cases "skip_ws cs") auto
      then have l2: "length ds < length cs" by (rule skip_ws_Cons)
      show ?thesis
      proof (cases "d = 0x5D")
        case d: True
        with True nb "2.prems" sk sd len l2 show ?thesis by simp
      next
        case False
        with True nb "2.prems" sk sd have "parse_elements n (d # ds) [] = Some (v, rest)" by simp
        from "2.IH"(2) [OF sk nb True sd False this] l2 len show ?thesis by simp
      qed
    next
      case na: False
      have le: "length (c # cs) \<le> length ts" using sk length_skip_ws [of ts] by simp
      from na nb "2.prems" sk have "length rest < length (c # cs)"
        by (auto split: if_splits option.splits
            dest: parse_chars_shorter parse_number_shorter)
      with le show ?thesis by simp
    qed
  qed
next
  case (3 ts es)
  then show ?case by simp
next
  case (4 n ts es)
  from "4.prems" obtain x r1 where pv: "parse_value n ts = Some (x, r1)"
    by (auto split: option.splits)
  from "4.IH"(1) [OF pv] have l1: "length r1 < length ts" .
  from "4.prems" pv obtain d ds where sd: "skip_ws r1 = d # ds"
    by (cases "skip_ws r1") auto
  then have l2: "length ds < length r1" by (rule skip_ws_Cons)
  show ?case
  proof (cases "d = 0x2C")
    case True
    with "4.prems" pv sd have "parse_elements n ds (es @ [x]) = Some (v, rest)" by simp
    from "4.IH"(2) [OF pv refl sd True this] l1 l2 show ?thesis by simp
  next
    case False
    with "4.prems" pv sd l1 l2 show ?thesis by (auto split: if_splits)
  qed
next
  case (5 ts ms)
  then show ?case by simp
next
  case (6 n ts ms)
  from "6.prems" obtain q cs where sk: "skip_ws ts = q # cs"
    by (cases "skip_ws ts") auto
  then have l0: "length cs < length ts" by (rule skip_ws_Cons)
  from "6.prems" sk have q: "q = 0x22" by (auto split: if_splits)
  with "6.prems" sk obtain k r1 where pc: "parse_chars cs = Some (k, r1)"
    by (auto split: option.splits)
  then have l1: "length r1 < length cs" by (rule parse_chars_shorter)
  from "6.prems" sk q pc obtain c r where sc: "skip_ws r1 = c # r"
    by (cases "skip_ws r1") auto
  then have l2: "length r < length r1" by (rule skip_ws_Cons)
  from "6.prems" sk q pc sc have c: "c = 0x3A" by (auto split: if_splits)
  with "6.prems" sk q pc sc obtain x r2 where pv: "parse_value n r = Some (x, r2)"
    by (auto split: option.splits)
  from "6.IH"(1) [OF sk q pc refl sc c pv] have l3: "length r2 < length r" .
  from "6.prems" sk q pc sc c pv obtain d ds where sd: "skip_ws r2 = d # ds"
    by (cases "skip_ws r2") auto
  then have l4: "length ds < length r2" by (rule skip_ws_Cons)
  show ?case
  proof (cases "d = 0x2C")
    case True
    with "6.prems" sk q pc sc c pv sd
    have "parse_members n ds (put_property ms k x) = Some (v, rest)" by simp
    from "6.IH"(2) [OF sk q pc refl sc c pv refl sd True this] l0 l1 l2 l3 l4
    show ?thesis by simp
  next
    case False
    with "6.prems" sk q pc sc c pv sd l0 l1 l2 l3 l4 show ?thesis
      by (auto split: if_splits)
  qed
qed

lemma parse_fuel_Suc:
  "2 * length ts < n \<Longrightarrow> parse_value (Suc n) ts = parse_value n ts"
  "2 * length ts + 1 < n \<Longrightarrow> parse_elements (Suc n) ts es = parse_elements n ts es"
  "2 * length ts + 1 < n \<Longrightarrow> parse_members (Suc n) ts ms = parse_members n ts ms"
proof (induction n ts and n ts es and n ts ms
    rule: parse_value_parse_elements_parse_members.induct)
  case (1 ts)
  then show ?case by simp
next
  case (2 n ts)
  show ?case
  proof (cases "skip_ws ts")
    case Nil
    then show ?thesis by simp
  next
    case (Cons c cs)
    then have len: "length cs < length ts" by (rule skip_ws_Cons)
    show ?thesis
    proof (cases "skip_ws cs")
      case Nil
      with Cons show ?thesis by simp
    next
      case sd: (Cons d ds)
      then have l2: "length ds < length cs" by (rule skip_ws_Cons)
      have m: "c = 0x7B \<Longrightarrow> d \<noteq> 0x7D \<Longrightarrow>
          parse_members (Suc n) (d # ds) [] = parse_members n (d # ds) []"
        using "2.IH"(1) [OF Cons _ sd] "2.prems" len l2 by simp
      have e: "c \<noteq> 0x7B \<Longrightarrow> c = 0x5B \<Longrightarrow> d \<noteq> 0x5D \<Longrightarrow>
          parse_elements (Suc n) (d # ds) [] = parse_elements n (d # ds) []"
        using "2.IH"(2) [OF Cons _ _ sd] "2.prems" len l2 by simp
      show ?thesis
        unfolding parse_value.simps(2) [of "Suc n" ts] parse_value.simps(2) [of n ts]
        using m e
        by (cases "c = 0x7B"; cases "c = 0x5B"; cases "d = 0x7D"; cases "d = 0x5D";
            simp add: Cons sd del: parse_value.simps parse_elements.simps parse_members.simps)
    qed
  qed
next
  case (3 ts es)
  then show ?case by simp
next
  case (4 n ts es)
  from "4.prems" have v: "parse_value (Suc n) ts = parse_value n ts"
    by (intro "4.IH"(1)) simp
  show ?case
  proof (cases "parse_value n ts")
    case None
    with v show ?thesis
      unfolding parse_elements.simps(2) [of "Suc n" ts es] parse_elements.simps(2) [of n ts es]
      by (simp del: parse_value.simps parse_elements.simps parse_members.simps)
  next
    case (Some p)
    then obtain x r1 where pv: "parse_value n ts = Some (x, r1)" by (cases p) simp
    then have l1: "length r1 < length ts" by (rule parse_shorter(1))
    show ?thesis
    proof (cases "skip_ws r1")
      case Nil
      with v pv show ?thesis
        unfolding parse_elements.simps(2) [of "Suc n" ts es] parse_elements.simps(2) [of n ts es]
        by (simp del: parse_value.simps parse_elements.simps parse_members.simps)
    next
      case (Cons d ds)
      then have l2: "length ds < length r1" by (rule skip_ws_Cons)
      have e: "d = 0x2C \<Longrightarrow>
          parse_elements (Suc n) ds (es @ [x]) = parse_elements n ds (es @ [x])"
        using "4.IH"(2) [OF pv refl Cons] "4.prems" l1 l2 by simp
      show ?thesis
        unfolding parse_elements.simps(2) [of "Suc n" ts es] parse_elements.simps(2) [of n ts es]
        using e v pv Cons
        by (cases "d = 0x2C";
            simp del: parse_value.simps parse_elements.simps parse_members.simps)
    qed
  qed
next
  case (5 ts ms)
  then show ?case by simp
next
  case (6 n ts ms)
  show ?case
  proof (cases "skip_ws ts")
    case Nil
    then show ?thesis by simp
  next
    case sk: (Cons q cs)
    then have l0: "length cs < length ts" by (rule skip_ws_Cons)
    show ?thesis
    proof (cases "q = 0x22")
      case False
      with sk show ?thesis by simp
    next
      case q: True
      show ?thesis
      proof (cases "parse_chars cs")
        case None
        with sk q show ?thesis by simp
      next
        case (Some p)
        then obtain k r1 where pc: "parse_chars cs = Some (k, r1)" by (cases p) simp
        then have l1: "length r1 < length cs" by (rule parse_chars_shorter)
        show ?thesis
        proof (cases "skip_ws r1")
          case Nil
          with sk q pc show ?thesis by simp
        next
          case sc: (Cons c r)
          then have l2: "length r < length r1" by (rule skip_ws_Cons)
          show ?thesis
          proof (cases "c = 0x3A")
            case False
            with sk q pc sc show ?thesis by simp
          next
            case c: True
            have v: "parse_value (Suc n) r = parse_value n r"
              using "6.IH"(1) [OF sk q pc refl sc c] "6.prems" l0 l1 l2 by simp
            show ?thesis
            proof (cases "parse_value n r")
              case None
              with v sk q pc sc c show ?thesis
                unfolding parse_members.simps(2) [of "Suc n" ts ms] parse_members.simps(2) [of n ts ms]
                by (simp del: parse_value.simps parse_elements.simps parse_members.simps)
            next
              case (Some p2)
              then obtain x r2 where pv: "parse_value n r = Some (x, r2)" by (cases p2) simp
              then have l3: "length r2 < length r" by (rule parse_shorter(1))
              show ?thesis
              proof (cases "skip_ws r2")
                case Nil
                with v pv sk q pc sc c show ?thesis
                  unfolding parse_members.simps(2) [of "Suc n" ts ms] parse_members.simps(2) [of n ts ms]
                  by (simp del: parse_value.simps parse_elements.simps parse_members.simps)
              next
                case sd: (Cons d ds)
                then have l4: "length ds < length r2" by (rule skip_ws_Cons)
                have m: "d = 0x2C \<Longrightarrow>
                    parse_members (Suc n) ds (put_property ms k x)
                      = parse_members n ds (put_property ms k x)"
                  using "6.IH"(2) [OF sk q pc refl sc c pv refl sd] "6.prems" l0 l1 l2 l3 l4
                  by simp
                show ?thesis
                  unfolding parse_members.simps(2) [of "Suc n" ts ms] parse_members.simps(2) [of n ts ms]
                  using m v pv sk q pc sc c sd
                  by (cases "d = 0x2C";
                      simp del: parse_value.simps parse_elements.simps parse_members.simps)
              qed
            qed
          qed
        qed
      qed
    qed
  qed
qed

lemma parse_value_fuel:
  "2 * length ts < n \<Longrightarrow> parse_value n ts = parse_value (Suc (2 * length ts)) ts"
proof (induction n)
  case 0
  then show ?case by simp
next
  case (Suc n)
  show ?case
  proof (cases "2 * length ts < n")
    case True
    with Suc.IH parse_fuel_Suc(1) [OF True] show ?thesis by simp
  next
    case False
    with Suc.prems have "n = 2 * length ts" by simp
    then show ?thesis by simp
  qed
qed

lemma json_of_text_fuel:
  "2 * length t < n \<Longrightarrow>
   json_of_text t = (case parse_value n t of
                       None \<Rightarrow> None
                     | Some (v, rest) \<Rightarrow> if skip_ws rest = [] then Some v else None)"
  by (simp add: json_of_text_def parse_value_fuel)

text \<open>
  On the three texts of the sample parser the reader gives what the sample parser
  gives.
\<close>

lemmas parse_value_numeral =
  parse_value.simps(2) [of "pred_numeral k" for k, folded numeral_eq_Suc]
  parse_elements.simps(2) [of "pred_numeral k" for k, folded numeral_eq_Suc]
  parse_members.simps(2) [of "pred_numeral k" for k, folded numeral_eq_Suc]

lemma sample_table_agrees:
  "json_of_text TEXT_ZERO = sample_table TEXT_ZERO"
  "json_of_text TEXT_REPLY_HI = sample_table TEXT_REPLY_HI"
  "json_of_text TEXT_A1 = sample_table TEXT_A1"
  by (simp_all add: json_of_text_def sample_table_def TEXT_ZERO_def TEXT_REPLY_HI_def TEXT_A1_def
      quoted_def ascii_def parse_value_numeral skip_ws_def json_ws_def parse_number_def
      parse_fraction_def parse_exponent_def is_digit_def digits_value_def put_property_def
      enumeration_def is_array_index_def Let_def)

subsection \<open>Reading back what was written\<close>






















lemma parse_value_true: "parse_value (Suc n) (0x74 # 0x72 # 0x75 # 0x65 # r) = Some (JBool True, r)"
  by (simp add: skip_ws_def json_ws_def ascii_def)

lemma parse_value_false:
  "parse_value (Suc n) (0x66 # 0x61 # 0x6C # 0x73 # 0x65 # r) = Some (JBool False, r)"
  by (simp add: skip_ws_def json_ws_def ascii_def)







lemma join_Cons_Cons:
  "join sep (x # y # ys) @ rest = x @ sep @ join sep (y # ys) @ rest"
  by simp






















section \<open>Properties of persisting and reloading\<close>












end
